theory Spec2Isabelle
  imports Complex_Main "HOL-Library.Multiset"
begin

section \<open>The client-side event batcher (class EventBatcher)\<close>

text \<open>
  The batcher runs on a single-threaded event loop. An async method runs synchronously up
  to its first \<^verbatim>\<open>await\<close> and is resumed later by the loop. The model is a state
  machine: one input is one turn of the loop (a public call, a browser signal, a timer, or
  the resumption of a suspended method), and \<open>step\<close> runs that turn to its end.

  A JavaScript number is NaN, an infinity or a finite value; the product of two numbers is
  the runtime's (the product of doubles) and is a parameter. An event record is opaque to
  the batcher and is a type variable. The serialised payload \<^verbatim>\<open>JSON.stringify(batch)\<close>
  is modelled by the batch it serialises, and the JSON round trip through localStorage as
  the identity on batches. A callback (\<^verbatim>\<open>onSuccess\<close>, \<^verbatim>\<open>onError\<close>) is modelled by
  what the batcher sees of a call: with these arguments it returns, or it throws. A call
  is recorded in the trace. The callbacks do not call back into the batcher. The batcher
  runs in a browser: \<^verbatim>\<open>window\<close>, \<^verbatim>\<open>document\<close> and \<^verbatim>\<open>localStorage\<close> exist. Console
  output is not modelled.
\<close>

subsection \<open>Data\<close>

datatype number = NaN | Infinity | NegInfinity | Finite real

text \<open>A number in a condition: 0 and NaN are falsy.\<close>

definition truthy :: "number \<Rightarrow> bool" where
  "truthy x = (x \<noteq> NaN \<and> x \<noteq> Finite 0)"

text \<open>\<^verbatim>\<open>array.length >= x\<close>: a comparison with NaN is false.\<close>

fun length_ge :: "nat \<Rightarrow> number \<Rightarrow> bool" where
  "length_ge n NaN = False"
| "length_ge n Infinity = False"
| "length_ge n NegInfinity = True"
| "length_ge n (Finite x) = (x \<le> real n)"

record 'e EventBatch =
  batch_id :: string
  batch_timestamp :: int
  events :: "'e list"

text \<open>
  What \<^verbatim>\<open>sendBatch\<close> throws (the rejection of \<^verbatim>\<open>fetch\<close>, or its own HTTP error), and
  what a callback throws.
\<close>

datatype error = FetchRejected string | HttpError int | CallbackThrew string

text \<open>A call of a callback returns (\<open>None\<close>) or throws (\<open>Some\<close> of what it throws).\<close>

type_synonym 'e on_error = "error \<Rightarrow> 'e list \<Rightarrow> string option"

type_synonym 'e on_success = "'e list \<Rightarrow> string option"

text \<open>\<^verbatim>\<open>BatcherConfig\<close> as the caller passes it: every field but the endpoint is optional.\<close>

record 'e BatcherConfig =
  in_endpoint :: string
  in_batchSize :: "number option"
  in_flushInterval :: "number option"
  in_maxRetries :: "number option"
  in_retryDelay :: "number option"
  in_headers :: "(string \<times> string) list option"
  in_onError :: "'e on_error option"
  in_onSuccess :: "'e on_success option"

text \<open>\<^verbatim>\<open>Required<BatcherConfig>\<close>, the field \<^verbatim>\<open>this.config\<close>.\<close>

record 'e Config =
  endpoint :: string
  batchSize :: number
  flushInterval :: number
  maxRetries :: number
  retryDelay :: number
  headers :: "(string \<times> string) list"
  onError :: "'e on_error"
  onSuccess :: "'e on_success"

text \<open>How the promise of \<^verbatim>\<open>fetch\<close> settles: a response with a status, or a rejection.\<close>

datatype fetch_result = Resolved int | Rejected string

text \<open>
  Effects that leave the batcher, in the order they happen: the calls of the transports
  and of the callbacks, and the rejection of the promise of \<^verbatim>\<open>flush\<close> or of
  \<^verbatim>\<open>retryFailedBatches\<close> (the promise of \<^verbatim>\<open>flush\<close> is what \<^verbatim>\<open>forceFlush\<close> returns to
  its caller).
\<close>

datatype 'e effect =
    SendBeacon "'e EventBatch" bool
  | Fetch "'e EventBatch"
  | OnSuccess "'e list"
  | OnError error "'e list"
  | FlushRejects error
  | SweepRejects error

text \<open>
  Where \<^verbatim>\<open>sendBatch\<close> stands when control returns to its caller: it has returned (the
  beacon took the payload), or it is suspended on the promise of \<^verbatim>\<open>fetch\<close>.
\<close>

datatype sent = Returned | AwaitingFetch

text \<open>
  A suspended method: \<^verbatim>\<open>flush\<close> at its \<^verbatim>\<open>await\<close> (line 113) with its local
  \<^verbatim>\<open>events\<close>, or \<^verbatim>\<open>retryFailedBatches\<close> at its \<^verbatim>\<open>await\<close> (line 204) with the
  current \<^verbatim>\<open>batch\<close> and the rest of \<^verbatim>\<open>batchesToRetry\<close>.
\<close>

datatype 'e task =
    FlushTask sent "'e list"
  | RetryTask sent "'e EventBatch" "'e EventBatch list"

text \<open>
  The fields of the class, then the browser around it: the item of localStorage under
  \<^verbatim>\<open>obs_failed_batches\<close>, whether localStorage throws, \<^verbatim>\<open>navigator.sendBeacon\<close>
  (absent, or the value it returns), whether the timeout behind \<^verbatim>\<open>retryTimer\<close> is still
  to fire, the number of envelopes built so far, the suspended methods and the trace.
  \<open>flushTimer\<close> and \<open>retryTimer\<close> hold the interval and the delay the timer was set with.
\<close>

record 'e state =
  config :: "'e Config"
  eventBuffer :: "'e list"
  flushTimer :: "number option"
  isOnline :: bool
  failedBatches :: "'e EventBatch list"
  retryTimer :: "number option"
  localStorage :: "'e EventBatch list option"
  storageThrows :: bool
  sendBeacon :: "bool option"
  retryArmed :: bool
  ticks :: nat
  pending :: "'e task list"
  trace :: "'e effect list"

text \<open>
  What the model does not compute. \<^verbatim>\<open>generateEventId()\<close> and \<^verbatim>\<open>Date.now()\<close> read the
  clock and a random source: the value each returns for the n-th envelope built.
  \<open>multiply\<close> is the operator \<^verbatim>\<open>*\<close> on numbers, the product of doubles.
\<close>

record runtime =
  generateEventId :: "nat \<Rightarrow> string"
  Date_now :: "nat \<Rightarrow> int"
  multiply :: "number \<Rightarrow> number \<Rightarrow> number"

text \<open>The browser a batcher is constructed in.\<close>

record 'e browser =
  stored :: "'e EventBatch list option"
  storage_throws :: bool
  beacon :: "bool option"

subsection \<open>Construction\<close>

text \<open>\<^verbatim>\<open>value || dflt\<close> on an optional number: undefined, 0 and NaN are falsy.\<close>

definition or_default :: "number option \<Rightarrow> number \<Rightarrow> number" where
  "or_default v dflt = (case v of None \<Rightarrow> dflt | Some x \<Rightarrow> if truthy x then x else dflt)"

text \<open>The default callbacks \<^verbatim>\<open>() => {}\<close> return.\<close>

definition required_config :: "'e BatcherConfig \<Rightarrow> 'e Config" where
  "required_config c =
     \<lparr> endpoint = in_endpoint c,
       batchSize = or_default (in_batchSize c) (Finite 50),
       flushInterval = or_default (in_flushInterval c) (Finite 5000),
       maxRetries = or_default (in_maxRetries c) (Finite 3),
       retryDelay = or_default (in_retryDelay c) (Finite 1000),
       headers = (case in_headers c of None \<Rightarrow> [] | Some h \<Rightarrow> h),
       onError = (case in_onError c of None \<Rightarrow> (\<lambda>err evs. None) | Some f \<Rightarrow> f),
       onSuccess = (case in_onSuccess c of None \<Rightarrow> (\<lambda>evs. None) | Some f \<Rightarrow> f) \<rparr>"

text \<open>
  The constructor. No statement of it, of \<^verbatim>\<open>setupEventListeners\<close> or of
  \<^verbatim>\<open>startFlushTimer\<close> throws, so the result is always \<open>Inr\<close>.
\<close>

definition constructor :: "'e BatcherConfig \<Rightarrow> 'e browser \<Rightarrow> error + 'e state" where
  "constructor c w =
     Inr \<lparr> config = required_config c,
           eventBuffer = [],
           flushTimer = Some (flushInterval (required_config c)),
           isOnline = True,
           failedBatches = [],
           retryTimer = None,
           localStorage = stored w,
           storageThrows = storage_throws w,
           sendBeacon = beacon w,
           retryArmed = False,
           ticks = 0,
           pending = [],
           trace = [] \<rparr>"

subsection \<open>Delivery\<close>

text \<open>\<^verbatim>\<open>response.ok\<close> of the Fetch API: the status is in the range 200 to 299.\<close>

definition ok :: "int \<Rightarrow> bool" where
  "ok status = (200 \<le> status \<and> status \<le> 299)"

text \<open>\<^verbatim>\<open>sendBatch\<close> up to the point where control returns to the caller.\<close>

definition sendBatch :: "'e EventBatch \<Rightarrow> bool \<Rightarrow> 'e state \<Rightarrow> sent \<times> 'e state" where
  "sendBatch batch useBeacon s =
     (let payload = batch in
      case (if useBeacon then sendBeacon s else None) of
        Some was_sent \<Rightarrow>
          (let s1 = s\<lparr>trace := trace s @ [SendBeacon payload was_sent]\<rparr> in
           if was_sent then (Returned, s1)
           else (AwaitingFetch, s1\<lparr>trace := trace s1 @ [Fetch payload]\<rparr>))
      | None \<Rightarrow> (AwaitingFetch, s\<lparr>trace := trace s @ [Fetch payload]\<rparr>))"

text \<open>\<^verbatim>\<open>sendBatch\<close> after the promise of \<^verbatim>\<open>fetch\<close> has settled: what it throws, if anything.\<close>

fun sendBatch_settled :: "fetch_result \<Rightarrow> error option" where
  "sendBatch_settled (Rejected msg) = Some (FetchRejected msg)"
| "sendBatch_settled (Resolved status) = (if \<not> ok status then Some (HttpError status) else None)"

subsection \<open>Spilling\<close>

definition new_batch :: "runtime \<Rightarrow> nat \<Rightarrow> 'e list \<Rightarrow> 'e EventBatch" where
  "new_batch rt n evs =
     \<lparr> batch_id = generateEventId rt n, batch_timestamp = Date_now rt n, events = evs \<rparr>"

text \<open>
  \<^verbatim>\<open>storeFailedBatch\<close>. When localStorage throws, the \<^verbatim>\<open>catch\<close> leaves the item as it was.
\<close>

definition storeFailedBatch :: "runtime \<Rightarrow> 'e list \<Rightarrow> 'e state \<Rightarrow> 'e state" where
  "storeFailedBatch rt evs s =
     (let batch = new_batch rt (ticks s) evs;
          s1 = s\<lparr>ticks := Suc (ticks s), failedBatches := failedBatches s @ [batch]\<rparr>
      in if storageThrows s1 then s1
         else
           (let existingBatches = (case localStorage s1 of None \<Rightarrow> [] | Some bs \<Rightarrow> bs) @ [batch];
                trimmedBatches = drop (length existingBatches - 100) existingBatches
            in s1\<lparr>localStorage := Some trimmedBatches\<rparr>))"

subsection \<open>Flushing\<close>

text \<open>\<^verbatim>\<open>flush\<close> up to its \<^verbatim>\<open>await\<close>.\<close>

definition flush :: "runtime \<Rightarrow> bool \<Rightarrow> 'e state \<Rightarrow> 'e state" where
  "flush rt useBeacon s =
     (if eventBuffer s = [] then s
      else if \<not> isOnline s then (storeFailedBatch rt (eventBuffer s) s)\<lparr>eventBuffer := []\<rparr>
      else
        (let evs = eventBuffer s;
             s1 = s\<lparr>eventBuffer := []\<rparr>;
             batch = new_batch rt (ticks s1) evs;
             s2 = s1\<lparr>ticks := Suc (ticks s1)\<rparr>;
             r = sendBatch batch useBeacon s2
         in (snd r)\<lparr>pending := pending (snd r) @ [FlushTask (fst r) evs]\<rparr>))"

text \<open>
  The \<^verbatim>\<open>catch\<close> of \<^verbatim>\<open>flush\<close> (lines 115 to 119): \<^verbatim>\<open>onError\<close> is called, then the
  records are spilled. When \<^verbatim>\<open>onError\<close> throws, the spill is not reached and the promise
  of \<^verbatim>\<open>flush\<close> rejects.
\<close>

definition flush_catch :: "runtime \<Rightarrow> 'e list \<Rightarrow> error \<Rightarrow> 'e state \<Rightarrow> 'e state" where
  "flush_catch rt evs err s =
     (let s1 = s\<lparr>trace := trace s @ [OnError err evs]\<rparr>
      in case onError (config s1) err evs of
           Some thrown \<Rightarrow> s1\<lparr>trace := trace s1 @ [FlushRejects (CallbackThrew thrown)]\<rparr>
         | None \<Rightarrow> storeFailedBatch rt evs s1)"

text \<open>
  \<^verbatim>\<open>flush\<close> from its \<^verbatim>\<open>await\<close> on. \<^verbatim>\<open>onSuccess\<close> is called inside the \<^verbatim>\<open>try\<close>
  (line 114): what it throws is caught like a failure of \<^verbatim>\<open>sendBatch\<close>.
\<close>

definition flush_resume :: "runtime \<Rightarrow> 'e list \<Rightarrow> error option \<Rightarrow> 'e state \<Rightarrow> 'e state" where
  "flush_resume rt evs thrown s =
     (case thrown of
        Some err \<Rightarrow> flush_catch rt evs err s
      | None \<Rightarrow>
          (let s1 = s\<lparr>trace := trace s @ [OnSuccess evs]\<rparr>
           in case onSuccess (config s1) evs of
                None \<Rightarrow> s1
              | Some thrown \<Rightarrow> flush_catch rt evs (CallbackThrew thrown) s1))"

definition addEvent :: "runtime \<Rightarrow> 'e \<Rightarrow> 'e state \<Rightarrow> 'e state" where
  "addEvent rt event s =
     (let s1 = s\<lparr>eventBuffer := eventBuffer s @ [event]\<rparr>
      in if length_ge (length (eventBuffer s1)) (batchSize (config s1))
         then flush rt False s1 else s1)"

definition addEvents :: "runtime \<Rightarrow> 'e list \<Rightarrow> 'e state \<Rightarrow> 'e state" where
  "addEvents rt evs s =
     (let s1 = s\<lparr>eventBuffer := eventBuffer s @ evs\<rparr>
      in if length_ge (length (eventBuffer s1)) (batchSize (config s1))
         then flush rt False s1 else s1)"

definition forceFlush :: "runtime \<Rightarrow> 'e state \<Rightarrow> 'e state" where
  "forceFlush rt s = flush rt False s"

definition destroy :: "runtime \<Rightarrow> 'e state \<Rightarrow> 'e state" where
  "destroy rt s =
     flush rt True (s\<lparr>flushTimer := None, retryTimer := None, retryArmed := False\<rparr>)"

subsection \<open>The retry sweep\<close>

text \<open>
  Lines 215 to 224: the next sweep is scheduled when batches are still failed, after
  \<^verbatim>\<open>retryDelay * Math.min(failedBatches.length, 10)\<close>.
\<close>

definition schedule_retry :: "runtime \<Rightarrow> 'e state \<Rightarrow> 'e state" where
  "schedule_retry rt s =
     (if length (failedBatches s) > 0
      then s\<lparr>retryTimer :=
               Some (multiply rt (retryDelay (config s))
                       (Finite (real (min (length (failedBatches s)) 10)))),
             retryArmed := True\<rparr>
      else s)"

text \<open>
  The loop over \<^verbatim>\<open>batchesToRetry\<close>, up to the next \<^verbatim>\<open>await\<close>: it sends the next batch
  and suspends, or it is over and the code after the loop runs.
\<close>

fun retry_loop :: "runtime \<Rightarrow> 'e EventBatch list \<Rightarrow> 'e state \<Rightarrow> 'e state" where
  "retry_loop rt [] s = schedule_retry rt s"
| "retry_loop rt (batch # rest) s =
     (let r = sendBatch batch False s
      in (snd r)\<lparr>pending := pending (snd r) @ [RetryTask (fst r) batch rest]\<rparr>)"

text \<open>\<^verbatim>\<open>retryFailedBatches\<close> up to its first \<^verbatim>\<open>await\<close>.\<close>

definition retryFailedBatches :: "runtime \<Rightarrow> 'e state \<Rightarrow> 'e state" where
  "retryFailedBatches rt s =
     (if \<not> isOnline s then s
      else
        (let s1 = (if storageThrows s then s
                   else case localStorage s of
                          None \<Rightarrow> s
                        | Some batches \<Rightarrow>
                            s\<lparr>failedBatches := failedBatches s @ batches, localStorage := None\<rparr>)
         in if failedBatches s1 = [] then s1
            else retry_loop rt (failedBatches s1) (s1\<lparr>failedBatches := []\<rparr>)))"

text \<open>
  The \<^verbatim>\<open>catch\<close> in the loop (lines 206 to 212): \<^verbatim>\<open>onError\<close> is called, the batch is
  put back in the failed list and the loop goes on. When \<^verbatim>\<open>onError\<close> throws, the loop is
  left: the batch is not put back, the rest of \<^verbatim>\<open>batchesToRetry\<close> is not tried, the code
  after the loop does not run, and the promise of \<^verbatim>\<open>retryFailedBatches\<close> rejects.
\<close>

definition retry_catch ::
  "runtime \<Rightarrow> 'e EventBatch \<Rightarrow> 'e EventBatch list \<Rightarrow> error \<Rightarrow> 'e state \<Rightarrow> 'e state" where
  "retry_catch rt batch rest err s =
     (let s1 = s\<lparr>trace := trace s @ [OnError err (events batch)]\<rparr>
      in case onError (config s1) err (events batch) of
           Some thrown \<Rightarrow> s1\<lparr>trace := trace s1 @ [SweepRejects (CallbackThrew thrown)]\<rparr>
         | None \<Rightarrow> retry_loop rt rest (s1\<lparr>failedBatches := failedBatches s1 @ [batch]\<rparr>))"

text \<open>
  The body of the loop after its \<^verbatim>\<open>await\<close>, then the loop again. \<^verbatim>\<open>onSuccess\<close> is
  called inside the \<^verbatim>\<open>try\<close> (line 205).
\<close>

definition retry_resume ::
  "runtime \<Rightarrow> 'e EventBatch \<Rightarrow> 'e EventBatch list \<Rightarrow> error option \<Rightarrow> 'e state \<Rightarrow> 'e state" where
  "retry_resume rt batch rest thrown s =
     (case thrown of
        Some err \<Rightarrow> retry_catch rt batch rest err s
      | None \<Rightarrow>
          (let s1 = s\<lparr>trace := trace s @ [OnSuccess (events batch)]\<rparr>
           in case onSuccess (config s1) (events batch) of
                None \<Rightarrow> retry_loop rt rest s1
              | Some thrown \<Rightarrow> retry_catch rt batch rest (CallbackThrew thrown) s1))"

subsection \<open>The event loop\<close>

datatype 'e input =
    AddEvent 'e
  | AddEvents "'e list"
  | ForceFlush
  | Destroy
  | Online
  | Offline
  | BeforeUnload
  | VisibilityChange bool
  | FlushTimerFires
  | RetryTimerFires
  | Continue nat
  | Respond nat fetch_result
  | SetSendBeacon "bool option"
  | SetStorageThrows bool

definition resume :: "runtime \<Rightarrow> 'e task \<Rightarrow> error option \<Rightarrow> 'e state \<Rightarrow> 'e state" where
  "resume rt t thrown s =
     (case t of
        FlushTask w evs \<Rightarrow> flush_resume rt evs thrown s
      | RetryTask w batch rest \<Rightarrow> retry_resume rt batch rest thrown s)"

fun awaits :: "'e task \<Rightarrow> sent" where
  "awaits (FlushTask w evs) = w"
| "awaits (RetryTask w batch rest) = w"

definition without :: "nat \<Rightarrow> 'a list \<Rightarrow> 'a list" where
  "without k xs = take k xs @ drop (Suc k) xs"

text \<open>
  \<open>Continue k\<close> resumes the k-th suspended method when the call it awaits has returned;
  \<open>Respond k r\<close> settles the fetch the k-th suspended method awaits. \<open>VisibilityChange h\<close>
  carries whether the page is now hidden. \<open>RetryTimerFires\<close> is the timeout set at line
  221: it calls \<^verbatim>\<open>retryFailedBatches\<close>. An input that does not apply changes nothing.
\<close>

fun step :: "runtime \<Rightarrow> 'e input \<Rightarrow> 'e state \<Rightarrow> 'e state" where
  "step rt (AddEvent e) s = addEvent rt e s"
| "step rt (AddEvents es) s = addEvents rt es s"
| "step rt ForceFlush s = forceFlush rt s"
| "step rt Destroy s = destroy rt s"
| "step rt Online s = retryFailedBatches rt (s\<lparr>isOnline := True\<rparr>)"
| "step rt Offline s = s\<lparr>isOnline := False\<rparr>"
| "step rt BeforeUnload s = flush rt True s"
| "step rt (VisibilityChange hidden) s = (if hidden then flush rt True s else s)"
| "step rt FlushTimerFires s = (if flushTimer s \<noteq> None then flush rt False s else s)"
| "step rt RetryTimerFires s =
     (if retryArmed s then retryFailedBatches rt (s\<lparr>retryArmed := False\<rparr>) else s)"
| "step rt (Continue k) s =
     (if k < length (pending s) \<and> awaits (pending s ! k) = Returned
      then resume rt (pending s ! k) None (s\<lparr>pending := without k (pending s)\<rparr>)
      else s)"
| "step rt (Respond k r) s =
     (if k < length (pending s) \<and> awaits (pending s ! k) = AwaitingFetch
      then resume rt (pending s ! k) (sendBatch_settled r) (s\<lparr>pending := without k (pending s)\<rparr>)
      else s)"
| "step rt (SetSendBeacon b) s = s\<lparr>sendBeacon := b\<rparr>"
| "step rt (SetStorageThrows b) s = s\<lparr>storageThrows := b\<rparr>"

fun run :: "runtime \<Rightarrow> 'e input list \<Rightarrow> 'e state \<Rightarrow> 'e state" where
  "run rt [] s = s"
| "run rt (i # is) s = run rt is (step rt i s)"

subsection \<open>Observations\<close>

text \<open>
  A delivery attempt is a payload handed to a transport. A beacon call that is refused is
  followed by the fetch of the same payload in the same call of \<^verbatim>\<open>sendBatch\<close>, so the
  attempt is counted at the fetch.
\<close>

fun attempt_of :: "'e effect \<Rightarrow> 'e EventBatch list" where
  "attempt_of (Fetch payload) = [payload]"
| "attempt_of (SendBeacon payload was_sent) = (if was_sent then [payload] else [])"
| "attempt_of _ = []"

definition attempts :: "'e effect list \<Rightarrow> 'e EventBatch list" where
  "attempts tr = concat (map attempt_of tr)"

text \<open>The records of all delivery attempts, in the order they were handed over.\<close>

definition attempted :: "'e effect list \<Rightarrow> 'e list" where
  "attempted tr = concat (map events (attempts tr))"

fun is_callback :: "'e effect \<Rightarrow> bool" where
  "is_callback (OnSuccess evs) = True"
| "is_callback (OnError err evs) = True"
| "is_callback _ = False"

fun is_rejection :: "'e effect \<Rightarrow> bool" where
  "is_rejection (FlushRejects err) = True"
| "is_rejection (SweepRejects err) = True"
| "is_rejection _ = False"

text \<open>The records a list of inputs hands to the batcher.\<close>

fun added_by :: "'e input \<Rightarrow> 'e list" where
  "added_by (AddEvent e) = [e]"
| "added_by (AddEvents es) = es"
| "added_by _ = []"

definition added :: "'e input list \<Rightarrow> 'e list" where
  "added inputs = concat (map added_by inputs)"

text \<open>
  The inputs that neither change the connectivity state nor start a retry sweep: the calls
  of the public methods, the flush triggers, and the resumptions.
\<close>

fun no_signal :: "'e input \<Rightarrow> bool" where
  "no_signal Online = False"
| "no_signal Offline = False"
| "no_signal RetryTimerFires = False"
| "no_signal _ = True"

fun is_resumption :: "'e input \<Rightarrow> bool" where
  "is_resumption (Continue k) = True"
| "is_resumption (Respond k r) = True"
| "is_resumption _ = False"

fun is_flush_task :: "'e task \<Rightarrow> bool" where
  "is_flush_task (FlushTask w evs) = True"
| "is_flush_task (RetryTask w batch rest) = False"

fun task_events :: "'e task \<Rightarrow> 'e list" where
  "task_events (FlushTask w evs) = evs"
| "task_events (RetryTask w batch rest) = concat (map events (batch # rest))"

fun delivered_by :: "'e effect \<Rightarrow> 'e list" where
  "delivered_by (OnSuccess evs) = evs"
| "delivered_by _ = []"

text \<open>
  Where a record can be: in the buffer, in a batch in flight, in a spilled batch of the
  in-memory list, or reported delivered.
\<close>

definition held :: "'e state \<Rightarrow> 'e multiset" where
  "held s =
     mset (eventBuffer s)
     + sum_list (map (\<lambda>t. mset (task_events t)) (pending s))
     + sum_list (map (\<lambda>b. mset (events b)) (failedBatches s))
     + sum_list (map (\<lambda>x. mset (delivered_by x)) (trace s))"




subsection \<open>Concrete batchers\<close>

text \<open>
  A runtime whose identifiers are all different. Its product is the exact one on finite
  numbers, as the product of doubles is on the small integers of the examples.
\<close>

definition rt_demo :: runtime where
  "rt_demo = \<lparr> generateEventId = (\<lambda>n. replicate (Suc n) CHR ''b''),
               Date_now = (\<lambda>n. 1000 + int n),
               multiply = (\<lambda>a b. case a of
                                    Finite x \<Rightarrow> (case b of Finite y \<Rightarrow> Finite (x * y) | _ \<Rightarrow> NaN)
                                  | _ \<Rightarrow> NaN) \<rparr>"

definition config3 :: "nat BatcherConfig" where
  "config3 = \<lparr> in_endpoint = ''/events'', in_batchSize = Some (Finite 3),
               in_flushInterval = None, in_maxRetries = None, in_retryDelay = None,
               in_headers = None, in_onError = None, in_onSuccess = None \<rparr>"

definition browser_demo :: "nat browser" where
  "browser_demo = \<lparr> stored = None, storage_throws = False, beacon = None \<rparr>"

definition fresh3 :: "nat state" where
  "fresh3 = projr (constructor config3 browser_demo)"

text \<open>
  Configurations with a negative batch size and with NaN as batch size, and a browser that
  kept a batch of an earlier page load in localStorage.
\<close>

definition config_negative :: "nat BatcherConfig" where
  "config_negative = config3\<lparr>in_batchSize := Some (Finite (- 1))\<rparr>"

definition config_nan :: "nat BatcherConfig" where
  "config_nan = config3\<lparr>in_batchSize := Some NaN\<rparr>"

definition browser_reloaded :: "nat browser" where
  "browser_reloaded =
     \<lparr> stored = Some [\<lparr>batch_id = ''earlier'', batch_timestamp = 900, events = [4]\<rparr>],
       storage_throws = False, beacon = None \<rparr>"

text \<open>
  Batchers whose callbacks throw: \<^verbatim>\<open>onSuccess\<close> always; \<^verbatim>\<open>onError\<close> always; both;
  \<^verbatim>\<open>onError\<close> only when called with the records \<open>[2]\<close>.
\<close>

definition success_throws :: "nat state" where
  "success_throws =
     projr (constructor (config3\<lparr>in_onSuccess := Some (\<lambda>evs. Some ''bad handler'')\<rparr>)
              browser_demo)"

definition error_throws :: "nat state" where
  "error_throws =
     projr (constructor (config3\<lparr>in_onError := Some (\<lambda>err evs. Some ''bad handler'')\<rparr>)
              browser_demo)"

definition both_throw :: "nat state" where
  "both_throw =
     projr (constructor (config3\<lparr>in_onSuccess := Some (\<lambda>evs. Some ''bad handler''),
                                in_onError := Some (\<lambda>err evs. Some ''worse handler'')\<rparr>)
              browser_demo)"

definition error_throws_on_2 :: "nat state" where
  "error_throws_on_2 =
     projr (constructor
       (config3\<lparr>in_onError := Some (\<lambda>err evs. if evs = [2] then Some ''bad handler'' else None)\<rparr>)
       browser_demo)"


section \<open>Properties\<close>

lemmas demo_defs = fresh3_def constructor_def required_config_def config3_def browser_demo_def
  or_default_def truthy_def rt_demo_def config_negative_def config_nan_def browser_reloaded_def
  success_throws_def error_throws_def both_throw_def error_throws_on_2_def

lemmas op_defs = addEvent_def addEvents_def forceFlush_def destroy_def flush_def sendBatch_def
  storeFailedBatch_def new_batch_def flush_resume_def flush_catch_def retry_resume_def
  retry_catch_def retryFailedBatches_def schedule_retry_def resume_def without_def ok_def Let_def

subsection \<open>Basic facts\<close>

lemma attempted_append: "attempted (xs @ ys) = attempted xs @ attempted ys"
  by (simp add: attempted_def attempts_def)

lemma storeFailedBatch_fields:
  "eventBuffer (storeFailedBatch rt evs s) = eventBuffer s"
  "trace (storeFailedBatch rt evs s) = trace s"
  "pending (storeFailedBatch rt evs s) = pending s"
  "isOnline (storeFailedBatch rt evs s) = isOnline s"
  "failedBatches (storeFailedBatch rt evs s) = failedBatches s @ [new_batch rt (ticks s) evs]"
  "config (storeFailedBatch rt evs s) = config s"
  by (simp_all add: storeFailedBatch_def Let_def)

lemma flush_online:
  assumes "isOnline s"
  shows "attempted (trace (flush rt b s)) @ eventBuffer (flush rt b s)
           = attempted (trace s) @ eventBuffer s"
  using assms
  by (auto simp add: flush_def sendBatch_def Let_def attempted_def attempts_def new_batch_def
      split: option.splits)

lemma flush_held: "held (flush rt b s) = held s"
  by (auto simp add: flush_def sendBatch_def Let_def held_def storeFailedBatch_fields new_batch_def
      split: option.splits)

lemma flush_flush_only:
  "list_all is_flush_task (pending s) \<Longrightarrow> list_all is_flush_task (pending (flush rt b s))"
  by (auto simp add: flush_def sendBatch_def Let_def storeFailedBatch_fields
      split: option.splits)

lemma flush_isOnline: "isOnline (flush rt b s) = isOnline s"
  by (auto simp add: flush_def sendBatch_def Let_def storeFailedBatch_fields
      split: option.splits)

lemma flush_config: "config (flush rt b s) = config s"
  by (auto simp add: flush_def sendBatch_def Let_def storeFailedBatch_fields split: option.splits)

lemma flush_offline_trace: "\<not> isOnline s \<Longrightarrow> trace (flush rt b s) = trace s"
  by (simp add: flush_def storeFailedBatch_fields)

lemma flush_swaps:
  "eventBuffer (flush rt b s) = []"
  "isOnline s \<and> eventBuffer s \<noteq> [] \<longrightarrow>
     (\<exists>w. pending (flush rt b s) = pending s @ [FlushTask w (eventBuffer s)])"
  by (auto simp add: flush_def Let_def storeFailedBatch_fields sendBatch_def split: option.splits)

lemma flush_callbacks:
  "filter is_callback (trace (flush rt b s)) = filter is_callback (trace s)"
  by (auto simp add: flush_def sendBatch_def Let_def storeFailedBatch_fields split: option.splits)

lemma sum_list_without:
  fixes g :: "'a \<Rightarrow> 'b::comm_monoid_add"
  assumes "k < length xs"
  shows "sum_list (map g (without k xs)) + g (xs ! k) = sum_list (map g xs)"
proof -
  have "xs = take k xs @ xs ! k # drop (Suc k) xs"
    using assms by (rule id_take_nth_drop)
  then have "sum_list (map g xs) = sum_list (map g (take k xs @ xs ! k # drop (Suc k) xs))"
    by simp
  then show ?thesis
    by (simp add: without_def add.commute add.left_commute)
qed

lemma list_all_without: "list_all P xs \<Longrightarrow> list_all P (without k xs)"
  by (auto simp add: without_def list_all_iff dest: in_set_takeD in_set_dropD)

lemma resume_flush_task_online:
  assumes "is_flush_task t"
  shows "attempted (trace (resume rt t thrown s)) = attempted (trace s)"
    and "eventBuffer (resume rt t thrown s) = eventBuffer s"
    and "isOnline (resume rt t thrown s) = isOnline s"
    and "pending (resume rt t thrown s) = pending s"
    and "config (resume rt t thrown s) = config s"
  using assms
  by (cases t; cases thrown;
      simp add: resume_def flush_resume_def flush_catch_def storeFailedBatch_fields Let_def
                attempted_append attempted_def attempts_def split: option.splits)+

lemma resume_flush_task_held:
  assumes "is_flush_task t"
    and "\<forall>err evs. onError (config s) err evs = None"
    and "\<forall>evs. onSuccess (config s) evs = None"
  shows "held (resume rt t thrown s) = held s + mset (task_events t)"
  using assms
  by (cases t; cases thrown;
      simp add: resume_def flush_resume_def flush_catch_def storeFailedBatch_fields Let_def
                held_def new_batch_def)

lemma addEvent_online:
  assumes "isOnline s"
  shows "attempted (trace (addEvent rt e s)) @ eventBuffer (addEvent rt e s)
           = attempted (trace s) @ eventBuffer s @ [e]"
  using assms flush_online [of "s\<lparr>eventBuffer := eventBuffer s @ [e]\<rparr>" rt False]
  by (simp add: addEvent_def Let_def)

lemma addEvents_online:
  assumes "isOnline s"
  shows "attempted (trace (addEvents rt es s)) @ eventBuffer (addEvents rt es s)
           = attempted (trace s) @ eventBuffer s @ es"
  using assms flush_online [of "s\<lparr>eventBuffer := eventBuffer s @ es\<rparr>" rt False]
  by (simp add: addEvents_def Let_def)

lemma addEvent_keeps:
  "isOnline (addEvent rt e s) = isOnline s"
  "list_all is_flush_task (pending s) \<Longrightarrow> list_all is_flush_task (pending (addEvent rt e s))"
  "config (addEvent rt e s) = config s"
  by (simp_all add: addEvent_def Let_def flush_isOnline flush_flush_only flush_config)

lemma addEvents_keeps:
  "isOnline (addEvents rt es s) = isOnline s"
  "list_all is_flush_task (pending s) \<Longrightarrow> list_all is_flush_task (pending (addEvents rt es s))"
  "config (addEvents rt es s) = config s"
  by (simp_all add: addEvents_def Let_def flush_isOnline flush_flush_only flush_config)

lemma retry_loop_unfold:
  "retry_loop rt bs s =
     (case bs of
        [] \<Rightarrow> schedule_retry rt s
      | batch # rest \<Rightarrow>
          (snd (sendBatch batch False s))
            \<lparr>pending := pending (snd (sendBatch batch False s))
                          @ [RetryTask (fst (sendBatch batch False s)) batch rest]\<rparr>)"
  by (cases bs) (simp_all add: Let_def)

lemmas sweep_defs = retryFailedBatches_def retry_loop_unfold schedule_retry_def sendBatch_def
  retry_resume_def retry_catch_def Let_def


subsection \<open>Runs of calls, flush triggers and resumptions\<close>

lemma step_online:
  assumes "isOnline s" "list_all is_flush_task (pending s)" "no_signal i"
  shows "attempted (trace (step rt i s)) @ eventBuffer (step rt i s)
           = attempted (trace s) @ eventBuffer s @ added_by i
         \<and> isOnline (step rt i s) \<and> list_all is_flush_task (pending (step rt i s))"
proof (cases i)
  case (AddEvent e)
  then show ?thesis
    using assms addEvent_online [of s rt e] by (simp add: addEvent_keeps)
next
  case (AddEvents es)
  then show ?thesis
    using assms addEvents_online [of s rt es] by (simp add: addEvents_keeps)
next
  case (Continue k)
  show ?thesis
  proof (cases "k < length (pending s) \<and> awaits (pending s ! k) = Returned")
    case True
    then have "is_flush_task (pending s ! k)"
      using assms(2) by (simp add: list_all_length)
    then show ?thesis
      using Continue True assms list_all_without [of is_flush_task "pending s" k]
      by (simp add: resume_flush_task_online)
  next
    case False
    then show ?thesis using Continue assms by auto
  qed
next
  case (Respond k r)
  show ?thesis
  proof (cases "k < length (pending s) \<and> awaits (pending s ! k) = AwaitingFetch")
    case True
    then have "is_flush_task (pending s ! k)"
      using assms(2) by (simp add: list_all_length)
    then show ?thesis
      using Respond True assms list_all_without [of is_flush_task "pending s" k]
      by (simp add: resume_flush_task_online)
  next
    case False
    then show ?thesis using Respond assms by auto
  qed
qed (use assms flush_flush_only [of "s\<lparr>flushTimer := None, retryTimer := None, retryArmed := False\<rparr>" rt True]
      in \<open>simp_all add: flush_online flush_isOnline forceFlush_def destroy_def flush_flush_only\<close>)

lemma run_online:
  assumes "isOnline s" "list_all is_flush_task (pending s)" "list_all no_signal inputs"
  shows "attempted (trace (run rt inputs s)) @ eventBuffer (run rt inputs s)
           = attempted (trace s) @ eventBuffer s @ added inputs"
  using assms
proof (induction inputs arbitrary: s)
  case Nil
  then show ?case by (simp add: added_def)
next
  case (Cons i inputs)
  from Cons.prems have st: "attempted (trace (step rt i s)) @ eventBuffer (step rt i s)
           = attempted (trace s) @ eventBuffer s @ added_by i"
     "isOnline (step rt i s)" "list_all is_flush_task (pending (step rt i s))"
    using step_online [of s i rt] by simp_all
  from Cons.prems have "list_all no_signal inputs" by simp
  from Cons.IH [OF st(2) st(3) this] st(1)
  show ?case by (simp add: added_def)
qed

lemma step_offline:
  assumes "\<not> isOnline s" "list_all is_flush_task (pending s)" "no_signal i"
  shows "attempted (trace (step rt i s)) = attempted (trace s)
         \<and> \<not> isOnline (step rt i s) \<and> list_all is_flush_task (pending (step rt i s))"
proof (cases i)
  case (AddEvent e)
  then show ?thesis
    using assms by (simp add: addEvent_keeps) (simp add: addEvent_def Let_def flush_offline_trace)
next
  case (AddEvents es)
  then show ?thesis
    using assms by (simp add: addEvents_keeps) (simp add: addEvents_def Let_def flush_offline_trace)
next
  case (Continue k)
  show ?thesis
  proof (cases "k < length (pending s) \<and> awaits (pending s ! k) = Returned")
    case True
    then have "is_flush_task (pending s ! k)"
      using assms(2) by (simp add: list_all_length)
    then show ?thesis
      using Continue True assms list_all_without [of is_flush_task "pending s" k]
      by (simp add: resume_flush_task_online)
  next
    case False
    then show ?thesis using Continue assms by auto
  qed
next
  case (Respond k r)
  show ?thesis
  proof (cases "k < length (pending s) \<and> awaits (pending s ! k) = AwaitingFetch")
    case True
    then have "is_flush_task (pending s ! k)"
      using assms(2) by (simp add: list_all_length)
    then show ?thesis
      using Respond True assms list_all_without [of is_flush_task "pending s" k]
      by (simp add: resume_flush_task_online)
  next
    case False
    then show ?thesis using Respond assms by auto
  qed
qed (use assms flush_flush_only [of "s\<lparr>flushTimer := None, retryTimer := None, retryArmed := False\<rparr>" rt True]
      in \<open>simp_all add: flush_offline_trace flush_isOnline forceFlush_def destroy_def flush_flush_only\<close>)

lemma run_offline:
  assumes "\<not> isOnline s" "list_all is_flush_task (pending s)" "list_all no_signal inputs"
  shows "attempted (trace (run rt inputs s)) = attempted (trace s)"
  using assms
proof (induction inputs arbitrary: s)
  case Nil
  then show ?case by simp
next
  case (Cons i inputs)
  from Cons.prems have st: "attempted (trace (step rt i s)) = attempted (trace s)"
     "\<not> isOnline (step rt i s)" "list_all is_flush_task (pending (step rt i s))"
    using step_offline [of s i rt] by simp_all
  from Cons.prems have "list_all no_signal inputs" by simp
  from Cons.IH [OF st(2) st(3) this] st(1)
  show ?case by simp
qed

lemma held_pending_without:
  assumes "k < length (pending s)"
  shows "held (s\<lparr>pending := without k (pending s)\<rparr>) + mset (task_events (pending s ! k)) = held s"
  using sum_list_without [OF assms, of "\<lambda>t. mset (task_events t)"]
  by (simp add: held_def add.commute add.left_commute)

lemma addEvent_held: "held (addEvent rt e s) = held s + {#e#}"
  by (simp add: addEvent_def Let_def flush_held) (simp add: held_def)

lemma addEvents_held: "held (addEvents rt es s) = held s + mset es"
  by (simp add: addEvents_def Let_def flush_held) (simp add: held_def)

lemma step_config:
  assumes "list_all is_flush_task (pending s)" "no_signal i"
  shows "config (step rt i s) = config s"
proof (cases i)
  case (Continue k)
  show ?thesis
  proof (cases "k < length (pending s) \<and> awaits (pending s ! k) = Returned")
    case True
    then have "is_flush_task (pending s ! k)"
      using assms(1) by (simp add: list_all_length)
    then show ?thesis using Continue True by (simp add: resume_flush_task_online)
  next
    case False
    then show ?thesis using Continue by auto
  qed
next
  case (Respond k r)
  show ?thesis
  proof (cases "k < length (pending s) \<and> awaits (pending s ! k) = AwaitingFetch")
    case True
    then have "is_flush_task (pending s ! k)"
      using assms(1) by (simp add: list_all_length)
    then show ?thesis using Respond True by (simp add: resume_flush_task_online)
  next
    case False
    then show ?thesis using Respond by auto
  qed
qed (use assms in \<open>simp_all add: forceFlush_def destroy_def flush_config addEvent_keeps addEvents_keeps\<close>)

lemma step_held:
  assumes "list_all is_flush_task (pending s)" "no_signal i"
    and "\<forall>err evs. onError (config s) err evs = None"
    and "\<forall>evs. onSuccess (config s) evs = None"
  shows "held (step rt i s) = held s + mset (added_by i)
         \<and> list_all is_flush_task (pending (step rt i s))"
proof (cases i)
  case (AddEvent e)
  then show ?thesis using assms by (simp add: addEvent_held addEvent_keeps)
next
  case (AddEvents es)
  then show ?thesis using assms by (simp add: addEvents_held addEvents_keeps)
next
  case (Continue k)
  show ?thesis
  proof (cases "k < length (pending s) \<and> awaits (pending s ! k) = Returned")
    case True
    then have ft: "is_flush_task (pending s ! k)"
      using assms(1) by (simp add: list_all_length)
    have "held (resume rt (pending s ! k) None (s\<lparr>pending := without k (pending s)\<rparr>))
            = held (s\<lparr>pending := without k (pending s)\<rparr>) + mset (task_events (pending s ! k))"
      using assms(3,4) by (intro resume_flush_task_held [OF ft]) simp_all
    then show ?thesis
      using Continue True assms(1,2) list_all_without [of is_flush_task "pending s" k]
        held_pending_without [of k s]
      by (simp add: resume_flush_task_online [OF ft])
  next
    case False
    then show ?thesis using Continue assms by auto
  qed
next
  case (Respond k r)
  show ?thesis
  proof (cases "k < length (pending s) \<and> awaits (pending s ! k) = AwaitingFetch")
    case True
    then have ft: "is_flush_task (pending s ! k)"
      using assms(1) by (simp add: list_all_length)
    have "held (resume rt (pending s ! k) (sendBatch_settled r) (s\<lparr>pending := without k (pending s)\<rparr>))
            = held (s\<lparr>pending := without k (pending s)\<rparr>) + mset (task_events (pending s ! k))"
      using assms(3,4) by (intro resume_flush_task_held [OF ft]) simp_all
    then show ?thesis
      using Respond True assms(1,2) list_all_without [of is_flush_task "pending s" k]
        held_pending_without [of k s]
      by (simp add: resume_flush_task_online [OF ft])
  next
    case False
    then show ?thesis using Respond assms by auto
  qed
next
  case Destroy
  then show ?thesis
    using assms flush_flush_only [of "s\<lparr>flushTimer := None, retryTimer := None, retryArmed := False\<rparr>" rt True]
    by (simp add: destroy_def flush_held) (simp add: held_def)
next
  case (SetSendBeacon b)
  then show ?thesis using assms by (simp add: held_def)
next
  case (SetStorageThrows b)
  then show ?thesis using assms by (simp add: held_def)
qed (use assms in \<open>simp_all add: forceFlush_def flush_held flush_flush_only\<close>)

lemma run_held:
  assumes "list_all is_flush_task (pending s)" "list_all no_signal inputs"
    and "\<forall>err evs. onError (config s) err evs = None"
    and "\<forall>evs. onSuccess (config s) evs = None"
  shows "held (run rt inputs s) = held s + mset (added inputs)"
  using assms
proof (induction inputs arbitrary: s)
  case Nil
  then show ?case by (simp add: added_def)
next
  case (Cons i inputs)
  from Cons.prems have st: "held (step rt i s) = held s + mset (added_by i)"
     "list_all is_flush_task (pending (step rt i s))"
    using step_held [of s i rt] by simp_all
  from Cons.prems have cf: "config (step rt i s) = config s"
    using step_config [of s i rt] by simp
  from Cons.prems have "list_all no_signal inputs" by simp
  from Cons.IH [OF st(2) this] cf Cons.prems(3,4) st(1)
  show ?case by (simp add: added_def)
qed

subsection \<open>C1: draining the buffer is atomic\<close>

text \<open>
  C1. \<^verbatim>\<open>flush\<close> empties the buffer before it suspends, and the suspended call holds
  exactly the records it drained. Over every sequence of calls, flush triggers and
  resumptions (no connectivity signal, no retry sweep under way): on a batcher that is
  online, the records of all delivery attempts followed by the buffer are the records that
  were there before followed by the records added, so no added record is lost and none is
  in two attempts, also when a flush starts while an earlier one awaits its response; on a
  batcher that is offline no delivery attempt is made; and, when the callbacks return,
  every record is in exactly one place: the buffer, a batch in flight, a spilled batch or
  a delivered batch.
\<close>

theorem flush_drain_is_atomic:
  assumes "list_all no_signal inputs" and "list_all is_flush_task (pending s)"
  shows "eventBuffer (flush rt b s) = []
       \<and> (isOnline s \<and> eventBuffer s \<noteq> [] \<longrightarrow>
            (\<exists>w. pending (flush rt b s) = pending s @ [FlushTask w (eventBuffer s)]))
       \<and> (isOnline s \<longrightarrow>
            attempted (trace (run rt inputs s)) @ eventBuffer (run rt inputs s)
              = attempted (trace s) @ eventBuffer s @ added inputs)
       \<and> (\<not> isOnline s \<longrightarrow> attempted (trace (run rt inputs s)) = attempted (trace s))
       \<and> ((\<forall>err evs. onError (config s) err evs = None)
            \<and> (\<forall>evs. onSuccess (config s) evs = None) \<longrightarrow>
              held (run rt inputs s) = held s + mset (added inputs))"
  using assms run_online [where s=s and inputs=inputs and rt=rt]
    run_held [where s=s and inputs=inputs and rt=rt]
    flush_swaps [where rt=rt and b=b and s=s] run_offline [where s=s and inputs=inputs and rt=rt]
  by simp

theorem flush_drain_is_atomic_witness:
  "list_all no_signal [ForceFlush, AddEvent 2, ForceFlush, Respond 0 (Rejected ''down''),
                       AddEvent 3, Respond 0 (Resolved 200)]
   \<and> list_all is_flush_task (pending (step rt_demo (AddEvent 1) fresh3))
   \<and> isOnline (step rt_demo (AddEvent 1) fresh3)
   \<and> eventBuffer (step rt_demo (AddEvent 1) fresh3) = [1]
   \<and> (\<forall>err evs. onError (config (step rt_demo (AddEvent 1) fresh3)) err evs = None)
   \<and> (\<forall>evs. onSuccess (config (step rt_demo (AddEvent 1) fresh3)) evs = None)
   \<and> pending (flush rt_demo False (step rt_demo (AddEvent 1) fresh3))
       = [FlushTask AwaitingFetch [1]]
   \<and> eventBuffer (flush rt_demo False (step rt_demo (AddEvent 1) fresh3)) = []
   \<and> attempts (trace (run rt_demo [ForceFlush, AddEvent 2, ForceFlush,
         Respond 0 (Rejected ''down''), AddEvent 3, Respond 0 (Resolved 200)]
         (step rt_demo (AddEvent 1) fresh3)))
       = [\<lparr>batch_id = ''b'', batch_timestamp = 1000, events = [1]\<rparr>,
          \<lparr>batch_id = ''bb'', batch_timestamp = 1001, events = [2]\<rparr>]
   \<and> eventBuffer (run rt_demo [ForceFlush, AddEvent 2, ForceFlush,
         Respond 0 (Rejected ''down''), AddEvent 3, Respond 0 (Resolved 200)]
         (step rt_demo (AddEvent 1) fresh3)) = [3]
   \<and> held (run rt_demo [ForceFlush, AddEvent 2, ForceFlush,
         Respond 0 (Rejected ''down''), AddEvent 3, Respond 0 (Resolved 200)]
         (step rt_demo (AddEvent 1) fresh3)) = {#1, 2, 3#}
   \<and> \<not> isOnline (run rt_demo [Offline, AddEvent 1] fresh3)
   \<and> list_all is_flush_task (pending (run rt_demo [Offline, AddEvent 1] fresh3))
   \<and> attempted (trace (run rt_demo [ForceFlush, AddEvent 2, ForceFlush,
         Respond 0 (Rejected ''down''), AddEvent 3, Respond 0 (Resolved 200)]
         (run rt_demo [Offline, AddEvent 1] fresh3))) = []"
  using flush_drain_is_atomic [where inputs = "[ForceFlush, AddEvent 2, ForceFlush,
         Respond 0 (Rejected ''down''), AddEvent 3, Respond 0 (Resolved 200)]"
         and s = "step rt_demo (AddEvent 1) fresh3" and rt = rt_demo and b = False]
    flush_drain_is_atomic [where inputs = "[ForceFlush, AddEvent 2, ForceFlush,
         Respond 0 (Rejected ''down''), AddEvent 3, Respond 0 (Resolved 200)]"
         and s = "run rt_demo [Offline, AddEvent 1] fresh3" and rt = rt_demo and b = False]
  by (simp add: demo_defs op_defs attempted_def attempts_def held_def added_def)

subsection \<open>C2: a delivered batch can stay in the spill store\<close>

text \<open>
  C2. On a fresh batcher that goes offline, buffers one record and flushes, no transport
  is called and one batch is spilled: it is in the in-memory list and in localStorage.
  The online signal starts a sweep at once, and the sweep holds that batch twice (once from
  each list). When the first fetch is answered 200 and the second 500, \<^verbatim>\<open>onSuccess\<close> has
  reported the batch delivered and the batch is back in the spill store, with a retry
  scheduled; the same when the answers come in the other order. When both are answered
  200 the batch is delivered twice.
\<close>

theorem spilled_batch_survives_its_delivery:
  "trace (run rt_demo [Offline, AddEvent 7, ForceFlush] fresh3) = []
   \<and> failedBatches (run rt_demo [Offline, AddEvent 7, ForceFlush] fresh3)
       = [\<lparr>batch_id = ''b'', batch_timestamp = 1000, events = [7]\<rparr>]
   \<and> localStorage (run rt_demo [Offline, AddEvent 7, ForceFlush] fresh3)
       = Some [\<lparr>batch_id = ''b'', batch_timestamp = 1000, events = [7]\<rparr>]
   \<and> trace (run rt_demo [Offline, AddEvent 7, ForceFlush, Online] fresh3)
       = [Fetch \<lparr>batch_id = ''b'', batch_timestamp = 1000, events = [7]\<rparr>]
   \<and> pending (run rt_demo [Offline, AddEvent 7, ForceFlush, Online] fresh3)
       = [RetryTask AwaitingFetch \<lparr>batch_id = ''b'', batch_timestamp = 1000, events = [7]\<rparr>
            [\<lparr>batch_id = ''b'', batch_timestamp = 1000, events = [7]\<rparr>]]
   \<and> trace (run rt_demo [Offline, AddEvent 7, ForceFlush, Online,
                         Respond 0 (Resolved 200), Respond 0 (Resolved 500)] fresh3)
       = [Fetch \<lparr>batch_id = ''b'', batch_timestamp = 1000, events = [7]\<rparr>, OnSuccess [7],
          Fetch \<lparr>batch_id = ''b'', batch_timestamp = 1000, events = [7]\<rparr>,
          OnError (HttpError 500) [7]]
   \<and> failedBatches (run rt_demo [Offline, AddEvent 7, ForceFlush, Online,
                         Respond 0 (Resolved 200), Respond 0 (Resolved 500)] fresh3)
       = [\<lparr>batch_id = ''b'', batch_timestamp = 1000, events = [7]\<rparr>]
   \<and> retryArmed (run rt_demo [Offline, AddEvent 7, ForceFlush, Online,
                         Respond 0 (Resolved 200), Respond 0 (Resolved 500)] fresh3)
   \<and> trace (run rt_demo [Offline, AddEvent 7, ForceFlush, Online,
                         Respond 0 (Resolved 500), Respond 0 (Resolved 200)] fresh3)
       = [Fetch \<lparr>batch_id = ''b'', batch_timestamp = 1000, events = [7]\<rparr>,
          OnError (HttpError 500) [7],
          Fetch \<lparr>batch_id = ''b'', batch_timestamp = 1000, events = [7]\<rparr>, OnSuccess [7]]
   \<and> failedBatches (run rt_demo [Offline, AddEvent 7, ForceFlush, Online,
                         Respond 0 (Resolved 500), Respond 0 (Resolved 200)] fresh3)
       = [\<lparr>batch_id = ''b'', batch_timestamp = 1000, events = [7]\<rparr>]
   \<and> retryArmed (run rt_demo [Offline, AddEvent 7, ForceFlush, Online,
                         Respond 0 (Resolved 500), Respond 0 (Resolved 200)] fresh3)"
  by (simp add: demo_defs op_defs)

subsection \<open>C3: a sweep attempts a spilled batch twice, and not in spill order\<close>

text \<open>
  C3. \<^verbatim>\<open>storeFailedBatch\<close> puts a batch in the in-memory list and in localStorage, and
  \<^verbatim>\<open>retryFailedBatches\<close> appends the persisted list to the in-memory list. On a fresh
  batcher that spills one batch while offline, the sweep started by the online signal
  fetches that batch twice. When localStorage holds a batch of an earlier page load, the
  sweep fetches the batch spilled later first, then the earlier one, then the later one
  again.
\<close>

theorem sweep_attempts_a_spilled_batch_twice:
  "trace (run rt_demo [Offline, AddEvent 7, ForceFlush, Online,
                       Respond 0 (Resolved 200), Respond 0 (Resolved 200)] fresh3)
     = [Fetch \<lparr>batch_id = ''b'', batch_timestamp = 1000, events = [7]\<rparr>, OnSuccess [7],
        Fetch \<lparr>batch_id = ''b'', batch_timestamp = 1000, events = [7]\<rparr>, OnSuccess [7]]
   \<and> trace (run rt_demo [Offline, AddEvent 7, ForceFlush, Online,
                         Respond 0 (Resolved 200), Respond 0 (Resolved 200)]
              (projr (constructor config3 browser_reloaded)))
     = [Fetch \<lparr>batch_id = ''b'', batch_timestamp = 1000, events = [7]\<rparr>, OnSuccess [7],
        Fetch \<lparr>batch_id = ''earlier'', batch_timestamp = 900, events = [4]\<rparr>, OnSuccess [4],
        Fetch \<lparr>batch_id = ''b'', batch_timestamp = 1000, events = [7]\<rparr>]
   \<and> pending (run rt_demo [Offline, AddEvent 7, ForceFlush, Online,
                         Respond 0 (Resolved 200), Respond 0 (Resolved 200)]
              (projr (constructor config3 browser_reloaded)))
     = [RetryTask AwaitingFetch \<lparr>batch_id = ''b'', batch_timestamp = 1000, events = [7]\<rparr> []]"
  by (simp add: demo_defs op_defs)

subsection \<open>C4: a refused beacon falls back to fetch\<close>

text \<open>
  C4. In an urgent flush (the buffer is not empty and the batcher is online), when
  \<^verbatim>\<open>navigator.sendBeacon\<close> returns false, \<^verbatim>\<open>fetch\<close> is called with the same payload
  in the same call: the flush then awaits that fetch, nothing is spilled and no callback
  is called.
\<close>

theorem refused_beacon_falls_back_to_fetch:
  assumes "eventBuffer s \<noteq> []" and "isOnline s" and "sendBeacon s = Some False"
  shows "trace (flush rt True s)
           = trace s @ [SendBeacon (new_batch rt (ticks s) (eventBuffer s)) False,
                        Fetch (new_batch rt (ticks s) (eventBuffer s))]
       \<and> pending (flush rt True s) = pending s @ [FlushTask AwaitingFetch (eventBuffer s)]
       \<and> failedBatches (flush rt True s) = failedBatches s
       \<and> localStorage (flush rt True s) = localStorage s"
  using assms by (simp add: flush_def sendBatch_def Let_def)

theorem refused_beacon_falls_back_to_fetch_witness:
  "eventBuffer (run rt_demo [SetSendBeacon (Some False), AddEvent 7] fresh3) \<noteq> []
   \<and> isOnline (run rt_demo [SetSendBeacon (Some False), AddEvent 7] fresh3)
   \<and> sendBeacon (run rt_demo [SetSendBeacon (Some False), AddEvent 7] fresh3) = Some False
   \<and> trace (flush rt_demo True (run rt_demo [SetSendBeacon (Some False), AddEvent 7] fresh3))
       = [SendBeacon \<lparr>batch_id = ''b'', batch_timestamp = 1000, events = [7]\<rparr> False,
          Fetch \<lparr>batch_id = ''b'', batch_timestamp = 1000, events = [7]\<rparr>]"
  using refused_beacon_falls_back_to_fetch
    [where s = "run rt_demo [SetSendBeacon (Some False), AddEvent 7] fresh3" and rt = rt_demo]
  by (simp add: demo_defs op_defs)

subsection \<open>C5: the outcome of the standard transport\<close>




subsection \<open>C6: the threshold flush\<close>





subsection \<open>C7: the backoff of the sweep, and no retry cap\<close>


















subsection \<open>C8: the identity of a spilled batch\<close>




subsection \<open>C9: what the batcher raises\<close>

text \<open>No method changes the configuration, and a promise rejects only when \<^verbatim>\<open>onError\<close>
  throws.\<close>

lemma step_keeps_config: "config (step rt i s) = config s"
proof -
  have fl: "\<And>b t. config (flush rt b t) = config t" by (rule flush_config)
  have rf: "\<And>t. config (retryFailedBatches rt t) = config t"
    by (simp add: sweep_defs split: option.splits list.splits)
  have re: "\<And>t thrown u. config (resume rt t thrown u) = config u"
    subgoal for t thrown u
      by (cases t; cases thrown)
         (simp_all add: resume_def flush_resume_def flush_catch_def storeFailedBatch_fields
            sweep_defs split: option.splits list.splits)
    done
  show ?thesis
    by (cases i)
       (simp_all add: addEvent_def addEvents_def forceFlush_def destroy_def Let_def fl rf re)
qed

lemma run_keeps_config: "config (run rt inputs s) = config s"
  by (induction inputs arbitrary: s) (simp_all add: step_keeps_config)

lemma step_rejections:
  assumes "\<forall>err evs. onError (config s) err evs = None"
  shows "filter is_rejection (trace (step rt i s)) = filter is_rejection (trace s)"
proof -
  have fl: "\<And>b t. filter is_rejection (trace (flush rt b t)) = filter is_rejection (trace t)"
    by (auto simp add: flush_def sendBatch_def Let_def storeFailedBatch_fields split: option.splits)
  have rf: "\<And>t. filter is_rejection (trace (retryFailedBatches rt t)) = filter is_rejection (trace t)"
    by (simp add: sweep_defs split: option.splits list.splits)
  have re: "\<And>t thrown u. config u = config s \<Longrightarrow>
      filter is_rejection (trace (resume rt t thrown u)) = filter is_rejection (trace u)"
    subgoal for t thrown u
      using assms
      by (cases t; cases thrown)
         (simp_all add: resume_def flush_resume_def flush_catch_def storeFailedBatch_fields
            sweep_defs split: option.splits list.splits)
    done
  show ?thesis
    by (cases i)
       (simp_all add: addEvent_def addEvents_def forceFlush_def destroy_def Let_def fl rf re)
qed

lemma run_rejections:
  assumes "\<forall>err evs. onError (config s) err evs = None"
  shows "filter is_rejection (trace (run rt inputs s)) = filter is_rejection (trace s)"
  using assms
proof (induction inputs arbitrary: s)
  case Nil
  then show ?case by simp
next
  case (Cons i inputs)
  have "\<forall>err evs. onError (config (step rt i s)) err evs = None"
    using Cons.prems by (simp add: step_keeps_config)
  from Cons.IH [OF this] step_rejections [OF Cons.prems, of rt i]
  show ?case by simp
qed

text \<open>
  C9, amended. In a browser, the constructor validates nothing and raises nothing: for
  every configuration it returns a batcher. An absent, zero or NaN batch size becomes 50;
  any other value, a negative one included, is kept. No method has an error result of its
  own; the only error that reaches a caller is the rejection of the promise of a flush
  (the promise \<^verbatim>\<open>forceFlush\<close> returns), and a promise of the batcher rejects only when
  \<^verbatim>\<open>onError\<close> throws: over every run of a batcher whose \<^verbatim>\<open>onError\<close> returns, no
  promise rejects.
\<close>

theorem constructor_never_fails:
  "(\<exists>s. constructor c w = Inr s
         \<and> config s = required_config c
         \<and> isOnline s \<and> eventBuffer s = [] \<and> failedBatches s = [] \<and> pending s = []
         \<and> trace s = []
         \<and> batchSize (config s)
             = (case in_batchSize c of
                  None \<Rightarrow> Finite 50
                | Some x \<Rightarrow> if x = NaN \<or> x = Finite 0 then Finite 50 else x))
   \<and> ((\<forall>err evs. onError (config t) err evs = None) \<longrightarrow>
        filter is_rejection (trace (run rt inputs t)) = filter is_rejection (trace t))"
  using run_rejections [of t rt inputs]
  by (auto simp add: constructor_def required_config_def or_default_def truthy_def
        split: option.splits)

theorem constructor_never_fails_witness:
  "constructor config_negative browser_demo
     = Inr (fresh3\<lparr>config := (config fresh3)\<lparr>batchSize := Finite (- 1)\<rparr>\<rparr>)
   \<and> constructor config_nan browser_demo
     = Inr (fresh3\<lparr>config := (config fresh3)\<lparr>batchSize := Finite 50\<rparr>\<rparr>)
   \<and> (\<forall>err evs. onError (config fresh3) err evs = None)
   \<and> filter is_rejection (trace (run rt_demo [AddEvent 1, ForceFlush, Respond 0 (Resolved 500),
        Online, Respond 0 (Rejected ''down''), Destroy] fresh3)) = []"
  using constructor_never_fails [where c = config_negative and w = browser_demo and rt = rt_demo
      and t = fresh3 and inputs = "[AddEvent 1, ForceFlush, Respond 0 (Resolved 500),
        Online, Respond 0 (Rejected ''down''), Destroy]"]
    constructor_never_fails [where c = config_nan and w = browser_demo and rt = rt_demo
      and t = fresh3 and inputs = "[]"]
  by (simp add: demo_defs op_defs)

text \<open>
  C9 as stated fails: with batch size -1 the constructor returns a batcher, whose batch
  size is -1; and on a batcher whose \<^verbatim>\<open>onError\<close> throws, the promise that
  \<^verbatim>\<open>forceFlush\<close> returned rejects when the fetch is answered 500.
\<close>

theorem construction_counterexample:
  "in_batchSize config_negative = Some (Finite (- 1))
   \<and> \<not> isl (constructor config_negative browser_demo)
   \<and> batchSize (config (projr (constructor config_negative browser_demo))) = Finite (- 1)
   \<and> trace (run rt_demo [AddEvent 1, ForceFlush, Respond 0 (Resolved 500)] error_throws)
       = [Fetch \<lparr>batch_id = ''b'', batch_timestamp = 1000, events = [1]\<rparr>,
          OnError (HttpError 500) [1], FlushRejects (CallbackThrew ''bad handler'')]"
  by (simp add: demo_defs op_defs)

subsection \<open>C10: an offline flush calls no callback\<close>

lemma retryFailedBatches_callbacks:
  "filter is_callback (trace (retryFailedBatches rt s)) = filter is_callback (trace s)"
  by (cases "failedBatches s"; cases "localStorage s"; cases "the (localStorage s)")
     (auto simp add: retryFailedBatches_def sendBatch_def Let_def schedule_retry_def
           split: option.splits list.splits)

lemma step_callbacks:
  "\<not> is_resumption i \<Longrightarrow> filter is_callback (trace (step rt i t)) = filter is_callback (trace t)"
  by (cases i) (simp_all add: addEvent_def addEvents_def forceFlush_def destroy_def Let_def
        flush_callbacks retryFailedBatches_callbacks)

text \<open>
  C10. A flush of a non-empty buffer on an offline batcher moves the records to the failed
  list and calls neither \<^verbatim>\<open>onSuccess\<close> nor \<^verbatim>\<open>onError\<close>; it leaves no suspended call
  behind that could call one later. The callbacks seen are those seen had the flush not
  run. In every turn of the loop, a callback is called only by a resumption, that is,
  after a delivery attempt.
\<close>

theorem offline_flush_invokes_no_callback:
  assumes "\<not> isOnline s" and "eventBuffer s \<noteq> []"
  shows "filter is_callback (trace (flush rt b s)) = filter is_callback (trace s)
       \<and> pending (flush rt b s) = pending s
       \<and> eventBuffer (flush rt b s) = []
       \<and> failedBatches (flush rt b s) = failedBatches s @ [new_batch rt (ticks s) (eventBuffer s)]
       \<and> (\<not> is_resumption i \<longrightarrow>
            filter is_callback (trace (step rt i t)) = filter is_callback (trace t))"
  using assms step_callbacks [where i=i and rt=rt and t=t]
  by (simp add: flush_def storeFailedBatch_fields)

theorem offline_flush_invokes_no_callback_witness:
  "\<not> isOnline (run rt_demo [Offline, AddEvent 7] fresh3)
   \<and> eventBuffer (run rt_demo [Offline, AddEvent 7] fresh3) = [7]
   \<and> filter is_callback (trace (flush rt_demo False (run rt_demo [Offline, AddEvent 7] fresh3))) = []
   \<and> eventBuffer (flush rt_demo False (run rt_demo [Offline, AddEvent 7] fresh3)) = []
   \<and> map events (failedBatches (flush rt_demo False (run rt_demo [Offline, AddEvent 7] fresh3)))
       = [[7]]
   \<and> \<not> is_resumption (ForceFlush :: nat input)
   \<and> filter is_callback (trace (step rt_demo ForceFlush (run rt_demo [Offline, AddEvent 7] fresh3)))
       = []"
  using offline_flush_invokes_no_callback
    [where s = "run rt_demo [Offline, AddEvent 7] fresh3" and rt = rt_demo and b = False
       and i = ForceFlush and t = "run rt_demo [Offline, AddEvent 7] fresh3"]
  by (simp add: demo_defs op_defs)

end
